theory Spec2Isabelle
  imports Main "HOL-Library.Multiset" "HOL-Library.Sublist"
begin

section \<open>Python values\<close>

text \<open>
  Strings are byte lists holding the UTF-8 encoding of the Python string. Every byte of a
  multi-byte sequence is at least 0x80, so splitting at an ASCII character and keeping
  ASCII digits act on the bytes exactly as the source acts on code points.
\<close>

datatype py_error = ValueError | TypeError | AttributeError | IndexError | HTTPError

text \<open>
  A cell of the supplier feed as the docstrings of seller.py show it: a string, or
  \<open>None\<close> (what \<open>dict.get\<close> gives for an absent key). Numeric cells are not
  modelled.
\<close>

datatype pyval = PyNone | PyStr string

type_synonym pydict = "(string \<times> pyval) list"

text \<open>The update records sent to the marketplaces, as JSON values.\<close>

datatype json = JNone | JStr string | JInt int | JList "json list" | JDict "(string \<times> json) list"

definition dict_get :: "pydict \<Rightarrow> string \<Rightarrow> pyval" where
  "dict_get d key = (case map_of d key of None \<Rightarrow> PyNone | Some v \<Rightarrow> v)"

definition json_get :: "json \<Rightarrow> string \<Rightarrow> json" where
  "json_get j key =
     (case j of
        JDict kvs \<Rightarrow> (case map_of kvs key of None \<Rightarrow> JNone | Some v \<Rightarrow> v)
      | _ \<Rightarrow> JNone)"

text \<open>The column names of the supplier feed, in UTF-8: the Cyrillic for code, quantity, price.\<close>

definition key_code :: string where
  "key_code = [CHR 0xD0, CHR 0x9A, CHR 0xD0, CHR 0xBE, CHR 0xD0, CHR 0xB4]"



subsection \<open>The built-ins \<open>str\<close> and \<open>int\<close>\<close>

definition is_digit :: "char \<Rightarrow> bool" where
  "is_digit c = (c \<in> set ''0123456789'')"


definition py_str :: "pyval \<Rightarrow> string" where
  "py_str v = (case v of PyNone \<Rightarrow> ''None'' | PyStr s \<Rightarrow> s)"










section \<open>seller.py: price_conversion and divide\<close>

text \<open>\<open>s.split(sep)\<close> for a separator of one character.\<close>

fun py_split :: "char \<Rightarrow> string \<Rightarrow> string list" where
  "py_split sep [] = [[]]"
| "py_split sep (c # cs) =
     (if c = sep then [] # py_split sep cs
      else (case py_split sep cs of [] \<Rightarrow> [[c]] | p # ps \<Rightarrow> (c # p) # ps))"

text \<open>\<open>re.sub("[^0-9]", "", s)\<close>: each character outside 0-9 is replaced by nothing.\<close>

fun re_sub_non_digits :: "string \<Rightarrow> string" where
  "re_sub_non_digits [] = []"
| "re_sub_non_digits (c # cs) =
     (if \<not> is_digit c then [] @ re_sub_non_digits cs else c # re_sub_non_digits cs)"

text \<open>
  \<open>return re.sub("[^0-9]", "", price.split(".")[0])\<close>. A value that is not a string has
  no \<open>split\<close>: \<open>AttributeError\<close>.
\<close>

definition price_conversion :: "pyval \<Rightarrow> py_error + string" where
  "price_conversion price =
     (case price of
        PyStr s \<Rightarrow>
          (case py_split CHR ''.'' s of
             [] \<Rightarrow> Inl IndexError
           | p # _ \<Rightarrow> Inr (re_sub_non_digits p))
      | _ \<Rightarrow> Inl AttributeError)"

text \<open>
  \<open>for i in range(0, len(lst), n): yield lst[i : i + n]\<close>, the generator read out as
  the list of what it yields. \<open>range\<close> raises \<open>ValueError\<close> for a zero step and is
  empty for a negative one.
\<close>

function divide_from :: "'a list \<Rightarrow> nat \<Rightarrow> nat \<Rightarrow> 'a list list" where
  "divide_from lst n i =
     (if 0 < n \<and> i < length lst then take n (drop i lst) # divide_from lst n (i + n) else [])"
  by pat_completeness auto
termination
  by (relation "measure (\<lambda>(lst, n, i). length lst - i)") auto

declare divide_from.simps [simp del]

definition divide_lst :: "'a list \<Rightarrow> int \<Rightarrow> py_error + 'a list list" where
  "divide_lst lst n =
     (if n = 0 then Inl ValueError
      else if n < 0 then Inr []
      else Inr (divide_from lst (nat n) 0))"

section \<open>seller.py: create_stocks and create_prices\<close>





section \<open>market.py: create_stocks and create_prices\<close>





section \<open>get_offer_ids\<close>

text \<open>
  \<open>get_product_list\<close> is the HTTP call. Its answer depends on the marketplace, so the
  model takes it as a parameter: a function of the number of calls made before and of the
  cursor sent, giving a page or the error that \<open>raise_for_status\<close> raises. A page is
  an answer with all its fields: the list of items, each with its offer identifier, the
  total as an integer, the cursor for the next call.
\<close>

record ozon_item =
  offer_id :: string

record ozon_page =
  page_items :: "ozon_item list"
  page_total :: int
  page_last_id :: string

text \<open>
  seller.py: \<open>while True\<close>, left only when \<open>total == len(product_list)\<close>. A loop that
  never gets there has the value \<open>None\<close>.
\<close>

partial_function (option) seller_offers_loop ::
  "(nat \<Rightarrow> string \<Rightarrow> py_error + ozon_page) \<Rightarrow> nat \<Rightarrow> string \<Rightarrow> ozon_item list
     \<Rightarrow> (py_error + ozon_item list) option" where
  "seller_offers_loop get_product_list calls last_id product_list =
     (case get_product_list calls last_id of
        Inl e \<Rightarrow> Some (Inl e)
      | Inr some_prod \<Rightarrow>
          if page_total some_prod = int (length (product_list @ page_items some_prod))
          then Some (Inr (product_list @ page_items some_prod))
          else seller_offers_loop get_product_list (calls + 1) (page_last_id some_prod)
                 (product_list @ page_items some_prod))"

definition seller_get_offer_ids ::
  "(nat \<Rightarrow> string \<Rightarrow> py_error + ozon_page) \<Rightarrow> (py_error + string list) option" where
  "seller_get_offer_ids get_product_list =
     (case seller_offers_loop get_product_list 0 [] [] of
        None \<Rightarrow> None
      | Some (Inl e) \<Rightarrow> Some (Inl e)
      | Some (Inr product_list) \<Rightarrow> Some (Inr (map offer_id product_list)))"

record market_offer =
  shopSku :: string

record market_entry =
  offer :: market_offer

text \<open>\<open>nextPageToken\<close> is \<open>None\<close> when the answer has no such key.\<close>

record market_page =
  offerMappingEntries :: "market_entry list"
  nextPageToken :: "string option"

text \<open>
  market.py: \<open>while True\<close>, left only when \<open>not page\<close>: the token is \<open>None\<close> or the
  empty string.
\<close>

partial_function (option) market_offers_loop ::
  "(nat \<Rightarrow> string option \<Rightarrow> py_error + market_page) \<Rightarrow> nat \<Rightarrow> string option
     \<Rightarrow> market_entry list \<Rightarrow> (py_error + market_entry list) option" where
  "market_offers_loop get_product_list calls page product_list =
     (case get_product_list calls page of
        Inl e \<Rightarrow> Some (Inl e)
      | Inr some_prod \<Rightarrow>
          if nextPageToken some_prod = None \<or> nextPageToken some_prod = Some []
          then Some (Inr (product_list @ offerMappingEntries some_prod))
          else market_offers_loop get_product_list (calls + 1) (nextPageToken some_prod)
                 (product_list @ offerMappingEntries some_prod))"

definition market_get_offer_ids ::
  "(nat \<Rightarrow> string option \<Rightarrow> py_error + market_page) \<Rightarrow> (py_error + string list) option" where
  "market_get_offer_ids get_product_list =
     (case market_offers_loop get_product_list 0 (Some []) [] of
        None \<Rightarrow> None
      | Some (Inl e) \<Rightarrow> Some (Inl e)
      | Some (Inr product_list) \<Rightarrow> Some (Inr (map (\<lambda>product. shopSku (offer product)) product_list)))"

section \<open>Notions used to state the properties\<close>


text \<open>The code and the quantity string of a supplier record, as the reconcilers read them.\<close>

definition code_of :: "pydict \<Rightarrow> string" where
  "code_of watch = py_str (dict_get watch key_code)"





definition unmatched :: "pydict list \<Rightarrow> string list \<Rightarrow> string list" where
  "unmatched ws ids = foldl (\<lambda>l watch. remove1 (code_of watch) l) ids ws"

text \<open>The stock record of seller.py.\<close>

definition seller_stock :: "string \<Rightarrow> int \<Rightarrow> json" where
  "seller_stock oid n = JDict [(''offer_id'', JStr oid), (''stock'', JInt n)]"

text \<open>Supplier texts of the examples, in UTF-8: the rouble suffix of a price, and a cell saying that
  the item is out of stock.\<close>

definition rub :: string where
  "rub = [CHR 0xD1, CHR 0x80, CHR 0xD1, CHR 0x83, CHR 0xD0, CHR 0xB1, CHR ''.'']"

definition net_v_nalichii :: string where
  "net_v_nalichii = [CHR 0xD0, CHR 0xBD, CHR 0xD0, CHR 0xB5, CHR 0xD1, CHR 0x82, CHR '' '',
     CHR 0xD0, CHR 0xB2, CHR '' '',
     CHR 0xD0, CHR 0xBD, CHR 0xD0, CHR 0xB0, CHR 0xD0, CHR 0xBB, CHR 0xD0, CHR 0xB8,
     CHR 0xD1, CHR 0x87, CHR 0xD0, CHR 0xB8, CHR 0xD0, CHR 0xB8]"

text \<open>The stock record of market.py, and the market.py record that carries what a seller.py
  record carries.\<close>

definition market_stock :: "string \<Rightarrow> string \<Rightarrow> string \<Rightarrow> int \<Rightarrow> json" where
  "market_stock date warehouse_id sku n =
     JDict [(''sku'', JStr sku),
            (''warehouseId'', JStr warehouse_id),
            (''items'', JList [JDict [(''count'', JInt n),
                                      (''type'', JStr ''FIT''),
                                      (''updatedAt'', JStr date)]])]"









text \<open>
  A run of \<open>get_offer_ids\<close> against a marketplace that answers the call number \<open>k\<close>
  with the page \<open>pages k\<close>: the cursor the loop sends with that call, and the items of
  the first \<open>n\<close> pages in the order of the calls.
\<close>

definition seller_cursor :: "(nat \<Rightarrow> ozon_page) \<Rightarrow> nat \<Rightarrow> string" where
  "seller_cursor pages k = (case k of 0 \<Rightarrow> [] | Suc j \<Rightarrow> page_last_id (pages j))"

definition seller_items :: "(nat \<Rightarrow> ozon_page) \<Rightarrow> nat \<Rightarrow> ozon_item list" where
  "seller_items pages n = concat (map (\<lambda>k. page_items (pages k)) [0..<n])"

definition market_cursor :: "(nat \<Rightarrow> market_page) \<Rightarrow> nat \<Rightarrow> string option" where
  "market_cursor pages k = (case k of 0 \<Rightarrow> Some [] | Suc j \<Rightarrow> nextPageToken (pages j))"

definition market_items :: "(nat \<Rightarrow> market_page) \<Rightarrow> nat \<Rightarrow> market_entry list" where
  "market_items pages n = concat (map (\<lambda>k. offerMappingEntries (pages k)) [0..<n])"

text \<open>A catalog of three offers in two pages, for each marketplace.\<close>

definition ozon_two_pages :: "nat \<Rightarrow> ozon_page" where
  "ozon_two_pages k =
     (if k = 0
      then \<lparr>page_items = [\<lparr>offer_id = ''a''\<rparr>, \<lparr>offer_id = ''b''\<rparr>], page_total = 3,
            page_last_id = ''b''\<rparr>
      else \<lparr>page_items = [\<lparr>offer_id = ''c''\<rparr>], page_total = 3, page_last_id = []\<rparr>)"

definition ozon_two_pages_fetch :: "nat \<Rightarrow> string \<Rightarrow> py_error + ozon_page" where
  "ozon_two_pages_fetch k last_id =
     (if k = 0 \<and> last_id = [] then Inr (ozon_two_pages 0)
      else if k = 1 \<and> last_id = ''b'' then Inr (ozon_two_pages 1)
      else Inl HTTPError)"

definition market_two_pages :: "nat \<Rightarrow> market_page" where
  "market_two_pages k =
     (if k = 0
      then \<lparr>offerMappingEntries = [\<lparr>offer = \<lparr>shopSku = ''a''\<rparr>\<rparr>, \<lparr>offer = \<lparr>shopSku = ''b''\<rparr>\<rparr>],
            nextPageToken = Some ''t1''\<rparr>
      else \<lparr>offerMappingEntries = [\<lparr>offer = \<lparr>shopSku = ''c''\<rparr>\<rparr>], nextPageToken = None\<rparr>)"

definition market_two_pages_fetch :: "nat \<Rightarrow> string option \<Rightarrow> py_error + market_page" where
  "market_two_pages_fetch k page =
     (if k = 0 \<and> page = Some [] then Inr (market_two_pages 0)
      else if k = 1 \<and> page = Some ''t1'' then Inr (market_two_pages 1)
      else Inl HTTPError)"

section \<open>The built-in \<open>int\<close> on digits\<close>




section \<open>The stock loop, record by record\<close>

lemma unmatched_simps [simp]:
  "unmatched [] ids = ids"
  "unmatched (w # ws) ids = unmatched ws (remove1 (code_of w) ids)"
  by (simp_all add: unmatched_def)













section \<open>price_conversion\<close>

lemma py_split_nonempty: "py_split sep s \<noteq> []"
  by (induction s) (auto split: list.splits)

lemma hd_py_split: "hd (py_split sep s) = takeWhile (\<lambda>c. c \<noteq> sep) s"
  by (induction s) (auto split: list.splits simp: py_split_nonempty)

lemma re_sub_non_digits_filter: "re_sub_non_digits s = filter is_digit s"
  by (induction s) auto

lemma price_conversion_str:
  "price_conversion (PyStr s) = Inr (filter is_digit (takeWhile (\<lambda>c. c \<noteq> CHR ''.'') s))"
proof (cases "py_split CHR ''.'' s")
  case Nil
  then show ?thesis by (simp add: py_split_nonempty)
next
  case (Cons p ps)
  then have "p = takeWhile (\<lambda>c. c \<noteq> CHR ''.'') s"
    using hd_py_split [of "CHR ''.''" s] by simp
  with Cons show ?thesis
    by (simp add: price_conversion_def re_sub_non_digits_filter)
qed

text \<open>
  C7. For every input string, \<open>price_conversion\<close> returns the string cut at its first
  full stop with every character that is not a digit removed, and it never raises. The
  examples of the specification come out as it says.
\<close>

theorem price_conversion_normalizes:
  "price_conversion (PyStr s) = Inr (filter is_digit (takeWhile (\<lambda>c. c \<noteq> CHR ''.'') s))
   \<and> price_conversion (PyStr (''5'990.00 '' @ rub)) = Inr ''5990''
   \<and> price_conversion (PyStr (''1 200.50 '' @ rub)) = Inr ''1200''
   \<and> price_conversion (PyStr '''') = Inr ''''
   \<and> price_conversion (PyStr net_v_nalichii) = Inr ''''"
  by (simp add: price_conversion_str is_digit_def rub_def net_v_nalichii_def)

theorem price_conversion_normalizes_witness:
  "price_conversion (PyStr (''0 '' @ rub)) = Inr ''0''"
  using price_conversion_normalizes [of "''0 '' @ rub"]
  by (simp add: is_digit_def rub_def)

section \<open>divide\<close>

lemma concat_divide_from: "0 < n \<Longrightarrow> concat (divide_from lst n i) = drop i lst"
proof (induction lst n i rule: divide_from.induct)
  case (1 lst n i)
  show ?case
  proof (cases "i < length lst")
    case True
    with 1 have "concat (divide_from lst n (i + n)) = drop (i + n) lst" by simp
    with True "1.prems" show ?thesis
      by (subst divide_from.simps) (simp, metis append_take_drop_id drop_drop add.commute)
  next
    case False
    then show ?thesis by (subst divide_from.simps) simp
  qed
qed

lemma length_divide_from:
  "0 < n \<Longrightarrow> length (divide_from lst n i) = (length lst - i + n - 1) div n"
proof (induction lst n i rule: divide_from.induct)
  case (1 lst n i)
  show ?case
  proof (cases "i < length lst")
    case True
    with 1 have ih: "length (divide_from lst n (i + n)) = (length lst - (i + n) + n - 1) div n"
      by simp
    have "(length lst - i + n - 1) div n = Suc ((length lst - (i + n) + n - 1) div n)"
    proof (cases "i + n \<le> length lst")
      case le: True
      define x where "x = length lst - (i + n) + n - 1"
      have "length lst - i + n - 1 = x + n"
        unfolding x_def using le "1.prems" by arith
      moreover have "(x + n) div n = Suc (x div n)"
        using "1.prems" by (simp add: div_add_self2)
      ultimately show ?thesis unfolding x_def by simp
    next
      case gt: False
      then have a: "length lst - (i + n) + n - 1 = n - 1" by simp
      from gt True have b: "n \<le> length lst - i + n - 1" "length lst - i + n - 1 < 2 * n"
        by simp_all
      from b "1.prems" have "(length lst - i + n - 1) div n = 1"
        by (metis One_nat_def Suc_1 div_nat_eqI mult.commute mult.right_neutral)
      with a "1.prems" show ?thesis by simp
    qed
    with ih True "1.prems" show ?thesis
      by (subst divide_from.simps) simp
  next
    case False
    then have "(length lst - i + n - 1) div n = 0" using "1.prems" by simp
    with False show ?thesis by (subst divide_from.simps) simp
  qed
qed

lemma nth_divide_from:
  "0 < n \<Longrightarrow> k < length (divide_from lst n i) \<Longrightarrow>
     divide_from lst n i ! k = take n (drop (i + k * n) lst)"
proof (induction lst n i arbitrary: k rule: divide_from.induct)
  case (1 lst n i)
  show ?case
  proof (cases "i < length lst")
    case True
    then have eq: "divide_from lst n i = take n (drop i lst) # divide_from lst n (i + n)"
      using "1.prems"(1) by (subst divide_from.simps) simp
    show ?thesis
    proof (cases k)
      case 0
      with eq show ?thesis by simp
    next
      case (Suc j)
      with eq "1.prems" have "j < length (divide_from lst n (i + n))" by simp
      with 1 True have "divide_from lst n (i + n) ! j = take n (drop (i + n + j * n) lst)" by simp
      with eq Suc show ?thesis by (simp add: add.assoc)
    qed
  next
    case False
    with "1.prems" show ?thesis by (subst (asm) divide_from.simps) simp
  qed
qed

lemma divide_from_chunk_bounds:
  assumes "0 < n" "k < length (divide_from lst n 0)"
  shows "k * n < length lst"
proof -
  from assms have "k < (length lst + n - 1) div n" by (simp add: length_divide_from)
  then have "Suc k \<le> (length lst + n - 1) div n" by simp
  then have "Suc k * n \<le> length lst + n - 1"
    using assms(1) by (simp add: less_eq_div_iff_mult_less_eq)
  then show ?thesis using assms(1) by simp
qed

text \<open>
  C5. For every list and every chunk size \<open>n > 0\<close>, \<open>divide\<close> yields chunks whose
  concatenation is the input: chunk \<open>k\<close> is the slice of length at most \<open>n\<close> that starts
  at \<open>k * n\<close>, every chunk is non-empty, every chunk but the last has length exactly
  \<open>n\<close>, and the empty list yields no chunk.
\<close>

theorem divide_partition:
  assumes "0 < n"
  shows "\<exists>chunks. divide_lst lst n = Inr chunks
           \<and> concat chunks = lst
           \<and> length chunks = (length lst + nat n - 1) div nat n
           \<and> (\<forall>k<length chunks. chunks ! k = take (nat n) (drop (k * nat n) lst))
           \<and> (\<forall>k<length chunks. 0 < length (chunks ! k) \<and> length (chunks ! k) \<le> nat n)
           \<and> (\<forall>k. Suc k < length chunks \<longrightarrow> length (chunks ! k) = nat n)
           \<and> (lst = [] \<longrightarrow> chunks = [])"
proof -
  let ?m = "nat n"
  let ?c = "divide_from lst ?m 0"
  from assms have m: "0 < ?m" by simp
  have d: "divide_lst lst n = Inr ?c" using assms by (simp add: divide_lst_def)
  have c1: "concat ?c = lst" using concat_divide_from [OF m, of lst 0] by simp
  have c2: "length ?c = (length lst + ?m - 1) div ?m" using length_divide_from [OF m, of lst 0] by simp
  have c3: "\<forall>k<length ?c. ?c ! k = take ?m (drop (k * ?m) lst)"
    using nth_divide_from [OF m, of _ lst 0] by simp
  have c4: "\<forall>k<length ?c. 0 < length (?c ! k) \<and> length (?c ! k) \<le> ?m"
  proof (intro allI impI)
    fix k assume k: "k < length ?c"
    then have "k * ?m < length lst" using divide_from_chunk_bounds [OF m] by blast
    moreover have "?c ! k = take ?m (drop (k * ?m) lst)" using c3 k by blast
    ultimately show "0 < length (?c ! k) \<and> length (?c ! k) \<le> ?m" using m by simp
  qed
  have c5: "\<forall>k. Suc k < length ?c \<longrightarrow> length (?c ! k) = ?m"
  proof (intro allI impI)
    fix k assume k: "Suc k < length ?c"
    then have "Suc k * ?m < length lst" using divide_from_chunk_bounds [OF m] by blast
    moreover have "?c ! k = take ?m (drop (k * ?m) lst)" using c3 k by simp
    ultimately show "length (?c ! k) = ?m" by simp
  qed
  have c6: "lst = [] \<longrightarrow> ?c = []" by (subst divide_from.simps) simp
  from d c1 c2 c3 c4 c5 c6 show ?thesis by blast
qed

theorem divide_partition_witness:
  "divide_lst [1, 2, 3, 4, 5 :: int] 2 = Inr [[1, 2], [3, 4], [5]]
   \<and> divide_lst ([] :: int list) 10 = Inr []
   \<and> divide_lst [1, 2, 3 :: int] 5 = Inr [[1, 2, 3]]"
proof -
  have a: "\<exists>chunks. divide_lst [1, 2, 3, 4, 5 :: int] 2 = Inr chunks
             \<and> length chunks = Suc (Suc (Suc 0))
             \<and> (\<forall>k<length chunks. chunks ! k = take 2 (drop (k * 2) [1, 2, 3, 4, 5]))"
    using divide_partition [of 2 "[1, 2, 3, 4, 5 :: int]"] by simp blast
  then obtain chunks where c: "divide_lst [1, 2, 3, 4, 5 :: int] 2 = Inr chunks" "length chunks = Suc (Suc (Suc 0))"
    "\<forall>k<length chunks. chunks ! k = take 2 (drop (k * 2) [1, 2, 3, 4, 5])" by blast
  from c(2,3) have "chunks ! 0 = [1, 2]" "chunks ! 1 = [3, 4]" "chunks ! 2 = [5]" by simp_all
  with c(2) have "chunks = [[1, 2], [3, 4], [5]]"
    by (intro nth_equalityI) (auto simp: less_Suc_eq numeral_2_eq_2)
  with c(1) have 1: "divide_lst [1, 2, 3, 4, 5 :: int] 2 = Inr [[1, 2], [3, 4], [5]]" by simp
  have 2: "divide_lst ([] :: int list) 10 = Inr []"
    by (simp add: divide_lst_def divide_from.simps)
  have 3: "divide_lst [1, 2, 3 :: int] 5 = Inr [[1, 2, 3]]"
    by (simp add: divide_lst_def divide_from.simps)
  from 1 2 3 show ?thesis by blast
qed

section \<open>create_stocks as a whole, and market.py through seller.py\<close>











section \<open>create_stocks: the properties\<close>


lemma offer_id_seller_stock [simp]: "json_get (seller_stock i n) ''offer_id'' = JStr i"
  by (simp add: seller_stock_def json_get_def)

lemma sku_market_stock [simp]: "json_get (market_stock date wh i n) ''sku'' = JStr i"
  by (simp add: market_stock_def json_get_def)




















section \<open>create_prices, record by record\<close>









section \<open>create_prices: the properties\<close>
















section \<open>create_stocks run twice\<close>






section \<open>get_offer_ids: the pages of the catalog\<close>

lemma seller_items_Suc: "seller_items pages (Suc k) = seller_items pages k @ page_items (pages k)"
  by (simp add: seller_items_def)

lemma market_items_Suc:
  "market_items pages (Suc k) = market_items pages k @ offerMappingEntries (pages k)"
  by (simp add: market_items_def)

lemma seller_offers_loop_reaches:
  assumes "\<forall>j. k \<le> j \<and> j \<le> n \<longrightarrow> fetch j (seller_cursor pages j) = Inr (pages j)"
    and "page_total (pages n) = int (length (seller_items pages (Suc n)))"
    and "k \<le> n"
  shows "\<exists>m. k \<le> m \<and> m \<le> n
           \<and> page_total (pages m) = int (length (seller_items pages (Suc m)))
           \<and> (\<forall>j. k \<le> j \<and> j < m \<longrightarrow> page_total (pages j) \<noteq> int (length (seller_items pages (Suc j))))
           \<and> seller_offers_loop fetch k (seller_cursor pages k) (seller_items pages k)
               = Some (Inr (seller_items pages (Suc m)))"
  using assms
proof (induction "n - k" arbitrary: k)
  case 0
  then have kn: "k = n" by simp
  from 0 have f: "fetch k (seller_cursor pages k) = Inr (pages k)" by simp
  have "seller_offers_loop fetch k (seller_cursor pages k) (seller_items pages k)
          = Some (Inr (seller_items pages (Suc k)))"
    using f "0.prems"(2) kn
    by (subst seller_offers_loop.simps) (simp add: seller_items_Suc)
  with kn "0.prems"(2) show ?case by auto
next
  case (Suc d)
  then have lt: "k < n" by simp
  from Suc.prems have f: "fetch k (seller_cursor pages k) = Inr (pages k)" by simp
  show ?case
  proof (cases "page_total (pages k) = int (length (seller_items pages (Suc k)))")
    case True
    have "seller_offers_loop fetch k (seller_cursor pages k) (seller_items pages k)
          = Some (Inr (seller_items pages (Suc k)))"
      using f True
      by (subst seller_offers_loop.simps) (simp add: seller_items_Suc)
    with True lt show ?thesis by auto
  next
    case False
    have d: "d = n - Suc k" using Suc.hyps(2) by simp
    have p1: "\<forall>j. Suc k \<le> j \<and> j \<le> n \<longrightarrow> fetch j (seller_cursor pages j) = Inr (pages j)"
      using Suc.prems(1) by simp
    have p3: "Suc k \<le> n" using lt by simp
    from Suc.hyps(1) [OF d p1 Suc.prems(2) p3] obtain m where m: "Suc k \<le> m" "m \<le> n"
      "page_total (pages m) = int (length (seller_items pages (Suc m)))"
      "\<forall>j. Suc k \<le> j \<and> j < m \<longrightarrow> page_total (pages j) \<noteq> int (length (seller_items pages (Suc j)))"
      "seller_offers_loop fetch (Suc k) (seller_cursor pages (Suc k)) (seller_items pages (Suc k))
         = Some (Inr (seller_items pages (Suc m)))"
      by blast
    have c: "seller_cursor pages (Suc k) = page_last_id (pages k)" by (simp add: seller_cursor_def)
    have "seller_offers_loop fetch k (seller_cursor pages k) (seller_items pages k)
          = Some (Inr (seller_items pages (Suc m)))"
      using f False m(5) c
      by (subst seller_offers_loop.simps) (simp add: seller_items_Suc)
    moreover have "\<forall>j. k \<le> j \<and> j < m \<longrightarrow> page_total (pages j) \<noteq> int (length (seller_items pages (Suc j)))"
    proof (intro allI impI)
      fix j assume j: "k \<le> j \<and> j < m"
      show "page_total (pages j) \<noteq> int (length (seller_items pages (Suc j)))"
      proof (cases "j = k")
        case True
        with False show ?thesis by simp
      next
        case False
        with j have "Suc k \<le> j \<and> j < m" by simp
        with m(4) show ?thesis by blast
      qed
    qed
    ultimately show ?thesis using m(1,2,3) by (intro exI [of _ m]) simp
  qed
qed

lemma market_offers_loop_reaches:
  assumes "\<forall>j. k \<le> j \<and> j \<le> n \<longrightarrow> fetch j (market_cursor pages j) = Inr (pages j)"
    and "nextPageToken (pages n) = None \<or> nextPageToken (pages n) = Some []"
    and "k \<le> n"
  shows "\<exists>m. k \<le> m \<and> m \<le> n
           \<and> (nextPageToken (pages m) = None \<or> nextPageToken (pages m) = Some [])
           \<and> (\<forall>j. k \<le> j \<and> j < m \<longrightarrow>
                 nextPageToken (pages j) \<noteq> None \<and> nextPageToken (pages j) \<noteq> Some [])
           \<and> market_offers_loop fetch k (market_cursor pages k) (market_items pages k)
               = Some (Inr (market_items pages (Suc m)))"
  using assms
proof (induction "n - k" arbitrary: k)
  case 0
  then have kn: "k = n" by simp
  from 0 have f: "fetch k (market_cursor pages k) = Inr (pages k)" by simp
  have "market_offers_loop fetch k (market_cursor pages k) (market_items pages k)
          = Some (Inr (market_items pages (Suc k)))"
    using f "0.prems"(2) kn
    by (subst market_offers_loop.simps) (auto simp: market_items_Suc)
  with kn "0.prems"(2) show ?case by auto
next
  case (Suc d)
  then have lt: "k < n" by simp
  from Suc.prems have f: "fetch k (market_cursor pages k) = Inr (pages k)" by simp
  show ?case
  proof (cases "nextPageToken (pages k) = None \<or> nextPageToken (pages k) = Some []")
    case True
    have "market_offers_loop fetch k (market_cursor pages k) (market_items pages k)
          = Some (Inr (market_items pages (Suc k)))"
      using f True
      by (subst market_offers_loop.simps) (auto simp: market_items_Suc)
    with True lt show ?thesis by auto
  next
    case False
    have d: "d = n - Suc k" using Suc.hyps(2) by simp
    have p1: "\<forall>j. Suc k \<le> j \<and> j \<le> n \<longrightarrow> fetch j (market_cursor pages j) = Inr (pages j)"
      using Suc.prems(1) by simp
    have p3: "Suc k \<le> n" using lt by simp
    from Suc.hyps(1) [OF d p1 Suc.prems(2) p3] obtain m where m: "Suc k \<le> m" "m \<le> n"
      "nextPageToken (pages m) = None \<or> nextPageToken (pages m) = Some []"
      "\<forall>j. Suc k \<le> j \<and> j < m \<longrightarrow>
         nextPageToken (pages j) \<noteq> None \<and> nextPageToken (pages j) \<noteq> Some []"
      "market_offers_loop fetch (Suc k) (market_cursor pages (Suc k)) (market_items pages (Suc k))
         = Some (Inr (market_items pages (Suc m)))"
      by blast
    have c: "market_cursor pages (Suc k) = nextPageToken (pages k)" by (simp add: market_cursor_def)
    have "market_offers_loop fetch k (market_cursor pages k) (market_items pages k)
          = Some (Inr (market_items pages (Suc m)))"
      using f False m(5) c
      by (subst market_offers_loop.simps) (auto simp: market_items_Suc)
    moreover have "\<forall>j. k \<le> j \<and> j < m \<longrightarrow>
         nextPageToken (pages j) \<noteq> None \<and> nextPageToken (pages j) \<noteq> Some []"
    proof (intro allI impI)
      fix j assume j: "k \<le> j \<and> j < m"
      show "nextPageToken (pages j) \<noteq> None \<and> nextPageToken (pages j) \<noteq> Some []"
      proof (cases "j = k")
        case True
        with False show ?thesis by simp
      next
        case False
        with j have "Suc k \<le> j \<and> j < m" by simp
        with m(4) show ?thesis by blast
      qed
    qed
    ultimately show ?thesis using m(1,2,3) by (intro exI [of _ m]) simp
  qed
qed

text \<open>
  C9. \<open>get_offer_ids\<close> returns whenever the marketplace signals exhaustion after some
  number of pages, however large. Let the marketplace answer the call number \<open>j\<close> (sent
  with the cursor of the page before) with the page \<open>pages j\<close>, up to a page \<open>n\<close> that
  signals exhaustion: for seller.py the items collected so far are as many as the reported
  total, for market.py the page token is absent or empty. Then the call returns, after the
  first page \<open>m \<le> n\<close> that signals exhaustion, the offer identifiers of the pages
  \<open>0, \<dots>, m\<close>, page after page in the order of the calls.
\<close>

theorem get_offer_ids_all_pages:
  "((\<forall>j. j \<le> n \<longrightarrow> fetch j (seller_cursor pages j) = Inr (pages j))
      \<and> page_total (pages n) = int (length (seller_items pages (Suc n))) \<longrightarrow>
     (\<exists>m. m \<le> n
        \<and> seller_get_offer_ids fetch = Some (Inr (map offer_id (seller_items pages (Suc m))))
        \<and> page_total (pages m) = int (length (seller_items pages (Suc m)))
        \<and> (\<forall>j. j < m \<longrightarrow> page_total (pages j) \<noteq> int (length (seller_items pages (Suc j))))))
   \<and> ((\<forall>j. j \<le> n \<longrightarrow> mfetch j (market_cursor mpages j) = Inr (mpages j))
      \<and> (nextPageToken (mpages n) = None \<or> nextPageToken (mpages n) = Some []) \<longrightarrow>
     (\<exists>m. m \<le> n
        \<and> market_get_offer_ids mfetch
            = Some (Inr (map (\<lambda>product. shopSku (offer product)) (market_items mpages (Suc m))))
        \<and> (nextPageToken (mpages m) = None \<or> nextPageToken (mpages m) = Some [])
        \<and> (\<forall>j. j < m \<longrightarrow>
              nextPageToken (mpages j) \<noteq> None \<and> nextPageToken (mpages j) \<noteq> Some [])))"
proof -
  have A: "(\<forall>j. j \<le> n \<longrightarrow> fetch j (seller_cursor pages j) = Inr (pages j))
      \<and> page_total (pages n) = int (length (seller_items pages (Suc n))) \<longrightarrow>
     (\<exists>m. m \<le> n
        \<and> seller_get_offer_ids fetch = Some (Inr (map offer_id (seller_items pages (Suc m))))
        \<and> page_total (pages m) = int (length (seller_items pages (Suc m)))
        \<and> (\<forall>j. j < m \<longrightarrow> page_total (pages j) \<noteq> int (length (seller_items pages (Suc j)))))"
  proof
    assume h: "(\<forall>j. j \<le> n \<longrightarrow> fetch j (seller_cursor pages j) = Inr (pages j))
      \<and> page_total (pages n) = int (length (seller_items pages (Suc n)))"
    then have p1: "\<forall>j. 0 \<le> j \<and> j \<le> n \<longrightarrow> fetch j (seller_cursor pages j) = Inr (pages j)"
      by simp
    from h have p2: "page_total (pages n) = int (length (seller_items pages (Suc n)))" by simp
    from seller_offers_loop_reaches [where k = 0 and n = n and fetch = fetch and pages = pages, OF p1 p2 le0]
    obtain m where m: "m \<le> n"
      "page_total (pages m) = int (length (seller_items pages (Suc m)))"
      "\<forall>j. 0 \<le> j \<and> j < m \<longrightarrow> page_total (pages j) \<noteq> int (length (seller_items pages (Suc j)))"
      "seller_offers_loop fetch 0 (seller_cursor pages 0) (seller_items pages 0)
         = Some (Inr (seller_items pages (Suc m)))"
      by blast
    from m(4) have "seller_offers_loop fetch 0 [] [] = Some (Inr (seller_items pages (Suc m)))"
      by (simp add: seller_cursor_def seller_items_def)
    then have "seller_get_offer_ids fetch = Some (Inr (map offer_id (seller_items pages (Suc m))))"
      by (simp add: seller_get_offer_ids_def)
    with m(1,2,3) show "\<exists>m. m \<le> n
        \<and> seller_get_offer_ids fetch = Some (Inr (map offer_id (seller_items pages (Suc m))))
        \<and> page_total (pages m) = int (length (seller_items pages (Suc m)))
        \<and> (\<forall>j. j < m \<longrightarrow> page_total (pages j) \<noteq> int (length (seller_items pages (Suc j))))"
      by (intro exI [of _ m]) simp
  qed
  have B: "(\<forall>j. j \<le> n \<longrightarrow> mfetch j (market_cursor mpages j) = Inr (mpages j))
      \<and> (nextPageToken (mpages n) = None \<or> nextPageToken (mpages n) = Some []) \<longrightarrow>
     (\<exists>m. m \<le> n
        \<and> market_get_offer_ids mfetch
            = Some (Inr (map (\<lambda>product. shopSku (offer product)) (market_items mpages (Suc m))))
        \<and> (nextPageToken (mpages m) = None \<or> nextPageToken (mpages m) = Some [])
        \<and> (\<forall>j. j < m \<longrightarrow>
              nextPageToken (mpages j) \<noteq> None \<and> nextPageToken (mpages j) \<noteq> Some []))"
  proof
    assume h: "(\<forall>j. j \<le> n \<longrightarrow> mfetch j (market_cursor mpages j) = Inr (mpages j))
      \<and> (nextPageToken (mpages n) = None \<or> nextPageToken (mpages n) = Some [])"
    then have p1: "\<forall>j. 0 \<le> j \<and> j \<le> n \<longrightarrow> mfetch j (market_cursor mpages j) = Inr (mpages j)"
      by simp
    from h have p2: "nextPageToken (mpages n) = None \<or> nextPageToken (mpages n) = Some []"
      by simp
    from market_offers_loop_reaches [where k = 0 and n = n and fetch = mfetch and pages = mpages, OF p1 p2 le0]
    obtain m where m: "m \<le> n"
      "nextPageToken (mpages m) = None \<or> nextPageToken (mpages m) = Some []"
      "\<forall>j. 0 \<le> j \<and> j < m \<longrightarrow>
         nextPageToken (mpages j) \<noteq> None \<and> nextPageToken (mpages j) \<noteq> Some []"
      "market_offers_loop mfetch 0 (market_cursor mpages 0) (market_items mpages 0)
         = Some (Inr (market_items mpages (Suc m)))"
      by blast
    from m(4) have "market_offers_loop mfetch 0 (Some []) [] = Some (Inr (market_items mpages (Suc m)))"
      by (simp add: market_cursor_def market_items_def)
    then have "market_get_offer_ids mfetch
        = Some (Inr (map (\<lambda>product. shopSku (offer product)) (market_items mpages (Suc m))))"
      by (simp add: market_get_offer_ids_def)
    with m(1,2,3) show "\<exists>m. m \<le> n
        \<and> market_get_offer_ids mfetch
            = Some (Inr (map (\<lambda>product. shopSku (offer product)) (market_items mpages (Suc m))))
        \<and> (nextPageToken (mpages m) = None \<or> nextPageToken (mpages m) = Some [])
        \<and> (\<forall>j. j < m \<longrightarrow>
              nextPageToken (mpages j) \<noteq> None \<and> nextPageToken (mpages j) \<noteq> Some [])"
      by (intro exI [of _ m]) simp
  qed
  show ?thesis
    by (intro conjI) (rule A, rule B)
qed

theorem get_offer_ids_all_pages_witness:
  "seller_get_offer_ids ozon_two_pages_fetch = Some (Inr [''a'', ''b'', ''c''])
   \<and> market_get_offer_ids market_two_pages_fetch = Some (Inr [''a'', ''b'', ''c''])"
proof -
  have s1: "\<forall>j. j \<le> 1 \<longrightarrow> ozon_two_pages_fetch j (seller_cursor ozon_two_pages j) = Inr (ozon_two_pages j)"
  proof (intro allI impI)
    fix j :: nat assume "j \<le> 1"
    then have "j = 0 \<or> j = 1" by arith
    then show "ozon_two_pages_fetch j (seller_cursor ozon_two_pages j) = Inr (ozon_two_pages j)"
      by (auto simp: ozon_two_pages_fetch_def seller_cursor_def ozon_two_pages_def)
  qed
  have i2: "seller_items ozon_two_pages (Suc 1)
              = [\<lparr>offer_id = ''a''\<rparr>, \<lparr>offer_id = ''b''\<rparr>, \<lparr>offer_id = ''c''\<rparr>]"
    by (simp add: seller_items_def ozon_two_pages_def upt_rec)
  have i1: "seller_items ozon_two_pages (Suc 0) = [\<lparr>offer_id = ''a''\<rparr>, \<lparr>offer_id = ''b''\<rparr>]"
    by (simp add: seller_items_def ozon_two_pages_def)
  have s2: "page_total (ozon_two_pages 1) = int (length (seller_items ozon_two_pages (Suc 1)))"
    unfolding i2 by (simp add: ozon_two_pages_def)
  have s0: "page_total (ozon_two_pages 0) \<noteq> int (length (seller_items ozon_two_pages (Suc 0)))"
    unfolding i1 by (simp add: ozon_two_pages_def)
  from get_offer_ids_all_pages [where n = 1 and fetch = ozon_two_pages_fetch and pages = ozon_two_pages,
         THEN conjunct1, THEN mp, OF conjI, OF s1 s2]
  obtain m where m: "m \<le> 1"
    "seller_get_offer_ids ozon_two_pages_fetch
       = Some (Inr (map offer_id (seller_items ozon_two_pages (Suc m))))"
    "page_total (ozon_two_pages m) = int (length (seller_items ozon_two_pages (Suc m)))"
    by blast
  from m(1) have "m = 0 \<or> m = 1" by arith
  with m(3) s0 have "m = 1" by blast
  with m(2) i2 have a: "seller_get_offer_ids ozon_two_pages_fetch = Some (Inr [''a'', ''b'', ''c''])"
    by simp
  have t1: "\<forall>j. j \<le> 1 \<longrightarrow>
      market_two_pages_fetch j (market_cursor market_two_pages j) = Inr (market_two_pages j)"
  proof (intro allI impI)
    fix j :: nat assume "j \<le> 1"
    then have "j = 0 \<or> j = 1" by arith
    then show "market_two_pages_fetch j (market_cursor market_two_pages j) = Inr (market_two_pages j)"
      by (auto simp: market_two_pages_fetch_def market_cursor_def market_two_pages_def)
  qed
  have k2: "market_items market_two_pages (Suc 1)
              = [\<lparr>offer = \<lparr>shopSku = ''a''\<rparr>\<rparr>, \<lparr>offer = \<lparr>shopSku = ''b''\<rparr>\<rparr>, \<lparr>offer = \<lparr>shopSku = ''c''\<rparr>\<rparr>]"
    by (simp add: market_items_def market_two_pages_def upt_rec)
  have t2: "nextPageToken (market_two_pages 1) = None \<or> nextPageToken (market_two_pages 1) = Some []"
    by (simp add: market_two_pages_def)
  have t0: "nextPageToken (market_two_pages 0) \<noteq> None \<and> nextPageToken (market_two_pages 0) \<noteq> Some []"
    by (simp add: market_two_pages_def)
  from get_offer_ids_all_pages [where n = 1 and mfetch = market_two_pages_fetch and mpages = market_two_pages,
         THEN conjunct2, THEN mp, OF conjI, OF t1 t2]
  obtain k where k: "k \<le> 1"
    "market_get_offer_ids market_two_pages_fetch
       = Some (Inr (map (\<lambda>product. shopSku (offer product)) (market_items market_two_pages (Suc k))))"
    "nextPageToken (market_two_pages k) = None \<or> nextPageToken (market_two_pages k) = Some []"
    by blast
  from k(1) have "k = 0 \<or> k = 1" by arith
  with k(3) t0 have "k = 1" by auto
  with k(2) k2 have b: "market_get_offer_ids market_two_pages_fetch = Some (Inr [''a'', ''b'', ''c''])"
    by simp
  from a b show ?thesis by blast
qed

end
